theory Spec2Isabelle
  imports Complex_Main "HOL-Library.Sublist"
begin

section \<open>Python values used by \<open>backend/server.py\<close>\<close>

subsection \<open>Strings\<close>

text \<open>
  A Python \<open>str\<close> is a sequence of Unicode code points, so it is modelled as a list of
  natural numbers. String literals of the source are ASCII apart from the character
  class of the regular expression in \<open>clean_numeric_value\<close>, which is given by its code
  points below.
\<close>

type_synonym ustr = "nat list"

definition lit :: "string \<Rightarrow> ustr" where
  "lit s = map of_char s"

text \<open>
  \<open>str.lower\<close>, \<open>str.strip\<close>, the regular expression class \<open>\s\<close> and \<open>float\<close> consult
  the interpreter's Unicode database for code points outside ASCII. That database is not
  part of the repository: it is a parameter of the model. On ASCII the behaviour is
  fixed and written out.
  \<^item> \<open>lower_of\<close>: the result of \<open>str.lower\<close> on a string with a non-ASCII code point;
  \<^item> \<open>space_of\<close>: whether a non-ASCII code point is whitespace;
  \<^item> \<open>decimal_of\<close>: the value of a non-ASCII decimal digit.
\<close>

record unicode_db =
  lower_of :: "ustr \<Rightarrow> ustr"
  space_of :: "nat \<Rightarrow> bool"
  decimal_of :: "nat \<Rightarrow> nat option"

definition ascii_lower :: "nat \<Rightarrow> nat" where
  "ascii_lower c = (if 65 \<le> c \<and> c \<le> 90 then c + 32 else c)"

definition is_ascii :: "ustr \<Rightarrow> bool" where
  "is_ascii s = list_all (\<lambda>c. c < 128) s"

definition py_lower :: "unicode_db \<Rightarrow> ustr \<Rightarrow> ustr" where
  "py_lower U s = (if is_ascii s then map ascii_lower s else lower_of U s)"

text \<open>\<open>s.replace(a, b)\<close> for one-character \<open>a\<close> and \<open>b\<close>.\<close>

definition replace_char :: "nat \<Rightarrow> nat \<Rightarrow> ustr \<Rightarrow> ustr" where
  "replace_char a b s = map (\<lambda>c. if c = a then b else c) s"

text \<open>\<open>a in b\<close> on strings: \<open>a\<close> occurs in \<open>b\<close> as a contiguous block.\<close>

fun py_in :: "ustr \<Rightarrow> ustr \<Rightarrow> bool" where
  "py_in a [] = (a = [])"
| "py_in a (y # ys) = (prefix a (y # ys) \<or> py_in a ys)"

text \<open>
  Whitespace: tab, line feed, vertical tab, form feed, carriage return, the four
  separators \<open>0x1c\<close> to \<open>0x1f\<close> and the space are the ASCII code points that
  \<open>str.strip\<close> and \<open>\s\<close> treat as whitespace.
\<close>

definition is_space :: "unicode_db \<Rightarrow> nat \<Rightarrow> bool" where
  "is_space U c =
     (if c < 128 then (9 \<le> c \<and> c \<le> 13) \<or> (28 \<le> c \<and> c \<le> 32) else space_of U c)"

definition py_strip :: "unicode_db \<Rightarrow> ustr \<Rightarrow> ustr" where
  "py_strip U s = rev (dropWhile (is_space U) (rev (dropWhile (is_space U) s)))"

subsection \<open>Floats\<close>

text \<open>
  A Python \<open>float\<close> is a finite value, an infinity or NaN. Finite values are modelled
  as real numbers: rounding to binary64 and overflow of finite sums are not modelled,
  and the two zeros are one. Every integer below \<open>2^53\<close> in magnitude is a binary64
  value, and sums and differences of such integers that stay below it are exact.
\<close>

datatype pyfloat = Fin real | PInf | NInf | NaN

fun fl_add :: "pyfloat \<Rightarrow> pyfloat \<Rightarrow> pyfloat" where
  "fl_add NaN _ = NaN"
| "fl_add _ NaN = NaN"
| "fl_add PInf NInf = NaN"
| "fl_add NInf PInf = NaN"
| "fl_add PInf _ = PInf"
| "fl_add _ PInf = PInf"
| "fl_add NInf _ = NInf"
| "fl_add _ NInf = NInf"
| "fl_add (Fin a) (Fin b) = Fin (a + b)"

fun fl_neg :: "pyfloat \<Rightarrow> pyfloat" where
  "fl_neg (Fin a) = Fin (- a)"
| "fl_neg PInf = NInf"
| "fl_neg NInf = PInf"
| "fl_neg NaN = NaN"

definition fl_sub :: "pyfloat \<Rightarrow> pyfloat \<Rightarrow> pyfloat" where
  "fl_sub x y = fl_add x (fl_neg y)"

text \<open>\<open>x > y\<close>: false as soon as one side is NaN.\<close>

fun fl_gt :: "pyfloat \<Rightarrow> pyfloat \<Rightarrow> bool" where
  "fl_gt NaN _ = False"
| "fl_gt _ NaN = False"
| "fl_gt PInf PInf = False"
| "fl_gt PInf _ = True"
| "fl_gt NInf _ = False"
| "fl_gt (Fin a) PInf = False"
| "fl_gt (Fin a) NInf = True"
| "fl_gt (Fin a) (Fin b) = (b < a)"

fun fl_mul :: "pyfloat \<Rightarrow> pyfloat \<Rightarrow> pyfloat" where
  "fl_mul NaN _ = NaN"
| "fl_mul _ NaN = NaN"
| "fl_mul (Fin a) (Fin b) = Fin (a * b)"
| "fl_mul (Fin a) PInf = (if a = 0 then NaN else if 0 < a then PInf else NInf)"
| "fl_mul (Fin a) NInf = (if a = 0 then NaN else if 0 < a then NInf else PInf)"
| "fl_mul PInf (Fin b) = (if b = 0 then NaN else if 0 < b then PInf else NInf)"
| "fl_mul NInf (Fin b) = (if b = 0 then NaN else if 0 < b then NInf else PInf)"
| "fl_mul PInf PInf = PInf"
| "fl_mul NInf NInf = PInf"
| "fl_mul PInf NInf = NInf"
| "fl_mul NInf PInf = NInf"

text \<open>
  \<open>x / y\<close> raises \<open>ZeroDivisionError\<close> when \<open>y\<close> is zero; a \<open>ValueError\<close> is what
  \<open>float\<close> raises on text that is not a number, an \<open>OverflowError\<close> what it raises
  on an integer that is too large.
\<close>

datatype error = ZeroDivisionError | ValueError | OverflowError

text \<open>
  A statement that raises ends the function with its error; otherwise the rest runs
  with the value.
\<close>

definition bind_error :: "error + 'a \<Rightarrow> ('a \<Rightarrow> error + 'b) \<Rightarrow> error + 'b" where
  "bind_error r f = (case r of Inl e \<Rightarrow> Inl e | Inr x \<Rightarrow> f x)"

fun fl_truediv :: "pyfloat \<Rightarrow> pyfloat \<Rightarrow> error + pyfloat" where
  "fl_truediv x (Fin b) =
     (if b = 0 then Inl ZeroDivisionError
      else Inr (case x of
                  Fin a \<Rightarrow> Fin (a / b)
                | PInf \<Rightarrow> (if 0 < b then PInf else NInf)
                | NInf \<Rightarrow> (if 0 < b then NInf else PInf)
                | NaN \<Rightarrow> NaN))"
| "fl_truediv x NaN = Inr NaN"
| "fl_truediv (Fin a) y = Inr (Fin 0)"
| "fl_truediv x y = Inr NaN"

text \<open>
  \<open>float(n)\<close> of an integer: the nearest binary64 value, and an \<open>OverflowError\<close> when
  that would be \<open>2^1024\<close> or beyond, which is from \<open>2^1024 - 2^970\<close> on in magnitude.
  Below that bound the model keeps the integer's exact value.
\<close>

definition float_of_int :: "int \<Rightarrow> error + pyfloat" where
  "float_of_int n =
     (if 2 ^ 1024 - 2 ^ 970 \<le> \<bar>n\<bar> then Inl OverflowError else Inr (Fin (of_int n)))"

subsection \<open>\<open>float\<close> of a string\<close>

text \<open>
  \<open>float(s)\<close> first brings the text to ASCII: a string that is ASCII already is kept; in
  any other, whitespace becomes a space, a decimal digit its ASCII digit, and the first
  code point that is neither becomes a question mark, which ends the text.
\<close>

definition is_digit :: "nat \<Rightarrow> bool" where
  "is_digit c = (48 \<le> c \<and> c \<le> 57)"

definition decimal :: "unicode_db \<Rightarrow> nat \<Rightarrow> nat option" where
  "decimal U c =
     (if c < 128 then (if is_digit c then Some (c - 48) else None)
      else case decimal_of U c of
             Some d \<Rightarrow> (if d < 10 then Some d else None)
           | None \<Rightarrow> None)"

fun transform_decimal_and_space :: "unicode_db \<Rightarrow> ustr \<Rightarrow> ustr" where
  "transform_decimal_and_space U [] = []"
| "transform_decimal_and_space U (c # cs) =
     (if c < 127 then c # transform_decimal_and_space U cs
      else if is_space U c then 32 # transform_decimal_and_space U cs
      else case decimal U c of
             Some d \<Rightarrow> (48 + d) # transform_decimal_and_space U cs
           | None \<Rightarrow> [63])"

definition to_ascii :: "unicode_db \<Rightarrow> ustr \<Rightarrow> ustr" where
  "to_ascii U s = (if is_ascii s then s else transform_decimal_and_space U s)"

text \<open>
  Underscores may stand between two digits only, and are dropped. The first argument is
  the previous code point (0 at the start).
\<close>

fun strip_underscores :: "nat \<Rightarrow> ustr \<Rightarrow> ustr option" where
  "strip_underscores prev [] = (if prev = 95 then None else Some [])"
| "strip_underscores prev (c # cs) =
     (if c = 95 then (if is_digit prev then strip_underscores c cs else None)
      else if prev = 95 \<and> \<not> is_digit c then None
      else map_option ((#) c) (strip_underscores c cs))"

text \<open>Surrounding ASCII whitespace (space, tab, line feed, vertical tab, form feed,
  carriage return) is skipped.\<close>

definition is_c_space :: "nat \<Rightarrow> bool" where
  "is_c_space c = (c = 32 \<or> (9 \<le> c \<and> c \<le> 13))"

definition strip_c_space :: "ustr \<Rightarrow> ustr" where
  "strip_c_space s = rev (dropWhile is_c_space (rev (dropWhile is_c_space s)))"

text \<open>
  The number itself: an optional sign, digits with at most one point among them (at
  least one digit in all), and an optional exponent \<open>e\<close> or \<open>E\<close> with an optional sign
  and at least one digit. Nothing may follow.
\<close>

definition split_sign :: "ustr \<Rightarrow> bool \<times> ustr" where
  "split_sign s =
     (case s of
        [] \<Rightarrow> (False, [])
      | c # cs \<Rightarrow> if c = 45 then (True, cs) else if c = 43 then (False, cs) else (False, s))"

definition digits_val :: "ustr \<Rightarrow> nat" where
  "digits_val ds = foldl (\<lambda>a c. 10 * a + (c - 48)) 0 ds"

definition pow10 :: "int \<Rightarrow> real" where
  "pow10 k = (if 0 \<le> k then 10 ^ nat k else 1 / 10 ^ nat (- k))"

definition parse_exponent :: "ustr \<Rightarrow> int option" where
  "parse_exponent s =
     (case s of
        [] \<Rightarrow> Some 0
      | c # cs \<Rightarrow>
          if c = 101 \<or> c = 69 then
            (case split_sign cs of
               (neg, ds) \<Rightarrow>
                 if ds \<noteq> [] \<and> list_all is_digit ds
                 then Some (if neg then - int (digits_val ds) else int (digits_val ds))
                 else None)
          else None)"

definition parse_decimal :: "ustr \<Rightarrow> real option" where
  "parse_decimal s =
     (case split_sign s of
        (neg, r0) \<Rightarrow>
          let d1 = takeWhile is_digit r0;
              r1 = dropWhile is_digit r0;
              d2 = (case r1 of [] \<Rightarrow> [] | c # cs \<Rightarrow> if c = 46 then takeWhile is_digit cs else []);
              r2 = (case r1 of [] \<Rightarrow> [] | c # cs \<Rightarrow> if c = 46 then dropWhile is_digit cs else r1)
          in if d1 = [] \<and> d2 = [] then None
             else case parse_exponent r2 of
                    None \<Rightarrow> None
                  | Some e \<Rightarrow>
                      Some ((if neg then - 1 else 1) * real (digits_val (d1 @ d2))
                              * pow10 (e - int (length d2))))"

text \<open>Otherwise the text may be \<open>inf\<close>, \<open>infinity\<close> or \<open>nan\<close>, in any case, after an
  optional sign.\<close>

definition parse_inf_or_nan :: "ustr \<Rightarrow> pyfloat option" where
  "parse_inf_or_nan s =
     (case split_sign s of
        (neg, r) \<Rightarrow>
          let l = map ascii_lower r in
          if l = lit ''inf'' \<or> l = lit ''infinity'' then Some (if neg then NInf else PInf)
          else if l = lit ''nan'' then Some NaN
          else None)"

definition py_float :: "unicode_db \<Rightarrow> ustr \<Rightarrow> error + pyfloat" where
  "py_float U s =
     (case strip_underscores 0 (to_ascii U s) of
        None \<Rightarrow> Inl ValueError
      | Some t \<Rightarrow>
          let b = strip_c_space t in
          (case parse_decimal b of
             Some r \<Rightarrow> Inr (Fin r)
           | None \<Rightarrow>
               (case parse_inf_or_nan b of
                  Some x \<Rightarrow> Inr x
                | None \<Rightarrow> Inl ValueError)))"

section \<open>\<open>clean_numeric_value\<close>\<close>

text \<open>
  A cell of the data frame: \<open>Null\<close> is \<open>None\<close> or a missing-value marker other than a
  float (\<open>pd.isna\<close> holds), \<open>PyInt\<close> a Python \<open>int\<close> (a \<open>bool\<close> is the integer 0 or 1),
  \<open>PyFloat\<close> a \<open>float\<close> (its NaN is missing as well), \<open>Str\<close> a string.
\<close>

datatype cell = Null | PyInt int | PyFloat pyfloat | Str ustr

text \<open>
  The character class of the source's regular expression, as the file has it: the code
  points \<open>U+00E2 U+201A U+00AC $ U+00C2 U+0141 U+00C2 U+0104 U+00E2 U+201A U+0105\<close>,
  followed by \<open>\s\<close>.
\<close>

definition currency_class :: "nat list" where
  "currency_class = [0xE2, 0x201A, 0xAC, 0x24, 0xC2, 0x141, 0xC2, 0x104, 0xE2, 0x201A, 0x105]"

definition re_sub_class :: "unicode_db \<Rightarrow> ustr \<Rightarrow> ustr" where
  "re_sub_class U s = filter (\<lambda>c. \<not> (c \<in> set currency_class \<or> is_space U c)) s"

text \<open>
  The function returns a float or raises. The first test returns 0.0 for a missing value
  and for the empty string. An \<open>int\<close> or a \<open>float\<close> goes through \<open>float(value)\<close>, outside
  the \<open>try\<close>: what the conversion raises leaves the function. For a string, the \<open>try\<close>
  catches \<open>ValueError\<close> and nothing else.
\<close>

definition clean_numeric_value :: "unicode_db \<Rightarrow> cell \<Rightarrow> error + pyfloat" where
  "clean_numeric_value U v =
     (case v of
        Null \<Rightarrow> Inr (Fin 0)
      | PyInt n \<Rightarrow> float_of_int n
      | PyFloat x \<Rightarrow> (if x = NaN then Inr (Fin 0) else Inr x)
      | Str s \<Rightarrow>
          if s = [] then Inr (Fin 0)
          else
            let str_value = py_strip U s;
                str_value = re_sub_class U str_value;
                str_value = replace_char 44 46 str_value
            in (case py_float U str_value of
                  Inr x \<Rightarrow> Inr x
                | Inl e \<Rightarrow> if e = ValueError then Inr (Fin 0) else Inl e))"

section \<open>\<open>detect_columns\<close>\<close>

text \<open>
  The code reads two things of a \<open>pandas.DataFrame\<close>: its column labels, in order
  (\<open>df.columns\<close>), and the cells of the column under a label (\<open>df[label]\<close>). The cells
  of a label that is not a column are never read.
\<close>

record dataframe =
  columns :: "ustr list"
  series :: "ustr \<Rightarrow> cell list"

text \<open>The pattern registry, a dictionary in the order of its literal.\<close>

definition COLUMN_PATTERNS :: "(ustr \<times> ustr list) list" where
  "COLUMN_PATTERNS =
    [(lit ''revenus'',
        map lit [''revenus'', ''revenue'', ''sales'', ''ventes'', ''chiffre_affaires'', ''ca'',
                 ''turnover'', ''income'']),
     (lit ''charges'',
        map lit [''charges'', ''expenses'', ''costs'', ''depenses'', ''charges_operationnelles'',
                 ''operating_expenses'']),
     (lit ''ebitda'',
        map lit [''ebitda'', ''earnings_before_interest_taxes_depreciation_amortization'']),
     (lit ''resultat_operationnel'',
        map lit [''resultat_operationnel'', ''operating_income'', ''operating_result'', ''ebit'']),
     (lit ''amortissements'',
        map lit [''amortissements'', ''depreciation'', ''amortization'',
                 ''depreciation_amortization'']),
     (lit ''resultat_net'',
        map lit [''resultat_net'', ''net_income'', ''net_profit'', ''benefice_net'', ''profit'']),
     (lit ''impots'',
        map lit [''impots'', ''taxes'', ''tax'', ''impot_societes'']),
     (lit ''cash_flow'',
        map lit [''cash_flow'', ''cashflow'', ''flux_tresorerie'']),
     (lit ''investissements'',
        map lit [''investissements'', ''investments'', ''capex'', ''capital_expenditure'']),
     (lit ''date'',
        map lit [''date'', ''periode'', ''month'', ''mois'', ''year'', ''annee'', ''trimestre'',
                 ''quarter''])]"

text \<open>\<open>col.lower().replace(' ', '_').replace('-', '_')\<close>\<close>

definition normalize_header :: "unicode_db \<Rightarrow> ustr \<Rightarrow> ustr" where
  "normalize_header U col = replace_char 45 95 (replace_char 32 95 (py_lower U col))"

text \<open>
  The innermost loop, over the patterns of one category for one column: the first
  pattern that matches sets \<open>detected[financial_type]\<close> to the original label and leaves
  the loop.
\<close>

fun scan_patterns ::
  "(ustr \<rightharpoonup> ustr) \<Rightarrow> ustr \<Rightarrow> ustr \<Rightarrow> ustr \<Rightarrow> ustr list \<Rightarrow> (ustr \<rightharpoonup> ustr)" where
  "scan_patterns detected financial_type label col [] = detected"
| "scan_patterns detected financial_type label col (pattern # patterns) =
     (if py_in pattern col \<or> py_in col pattern then detected(financial_type \<mapsto> label)
      else scan_patterns detected financial_type label col patterns)"

text \<open>
  The loop over \<open>enumerate(columns)\<close>: after the patterns of a column, it leaves as soon
  as \<open>financial_type in detected\<close>. The label recorded is \<open>df.columns[col_idx]\<close>; the
  index is that of a normalized label, so it is in range.
\<close>

fun scan_columns ::
  "ustr list \<Rightarrow> (ustr \<rightharpoonup> ustr) \<Rightarrow> ustr \<Rightarrow> ustr list \<Rightarrow> (nat \<times> ustr) list \<Rightarrow> (ustr \<rightharpoonup> ustr)" where
  "scan_columns df_columns detected financial_type patterns [] = detected"
| "scan_columns df_columns detected financial_type patterns ((col_idx, col) # rest) =
     (let detected' =
            scan_patterns detected financial_type (df_columns ! col_idx) col patterns
      in if detected' financial_type \<noteq> None then detected'
         else scan_columns df_columns detected' financial_type patterns rest)"

text \<open>The outer loop, over the items of \<open>COLUMN_PATTERNS\<close>.\<close>

fun scan_types ::
  "ustr list \<Rightarrow> ustr list \<Rightarrow> (ustr \<rightharpoonup> ustr) \<Rightarrow> (ustr \<times> ustr list) list \<Rightarrow> (ustr \<rightharpoonup> ustr)" where
  "scan_types df_columns normalized detected [] = detected"
| "scan_types df_columns normalized detected ((financial_type, patterns) # rest) =
     scan_types df_columns normalized
       (scan_columns df_columns detected financial_type patterns (enumerate 0 normalized))
       rest"

definition detect_columns :: "unicode_db \<Rightarrow> dataframe \<Rightarrow> (ustr \<rightharpoonup> ustr)" where
  "detect_columns U df =
     (let normalized = map (normalize_header U) (columns df)
      in scan_types (columns df) normalized Map.empty COLUMN_PATTERNS)"

section \<open>\<open>calculate_kpis\<close>\<close>

record kpis =
  revenus_totaux :: pyfloat
  ebitda :: pyfloat
  resultat_net :: pyfloat
  free_cash_flow :: pyfloat
  marge_nette :: pyfloat

text \<open>
  \<open>sum(clean_numeric_value(val) for val in df[col_name])\<close>: the sum starts at 0; each
  cell is cleaned and added in turn, from left to right, and the first cell whose
  cleaning raises ends the sum with that error. The first argument is the sum so far.
\<close>

fun sum_cleaned :: "unicode_db \<Rightarrow> pyfloat \<Rightarrow> cell list \<Rightarrow> error + pyfloat" where
  "sum_cleaned U acc [] = Inr acc"
| "sum_cleaned U acc (val # vals) =
     bind_error (clean_numeric_value U val) (\<lambda>x. sum_cleaned U (fl_add acc x) vals)"

definition get_column_sum ::
  "unicode_db \<Rightarrow> dataframe \<Rightarrow> (ustr \<rightharpoonup> ustr) \<Rightarrow> ustr \<Rightarrow> error + pyfloat" where
  "get_column_sum U df detected_columns column_type =
     (case detected_columns column_type of
        Some col_name \<Rightarrow>
          if col_name \<in> set (columns df)
          then sum_cleaned U (Fin 0) (series df col_name)
          else Inr (Fin 0)
      | None \<Rightarrow> Inr (Fin 0))"

text \<open>
  The function returns the dictionary of the five indicators, or the error of the first
  statement that raises: a column sum, in the order in which the source takes them, or
  the division.
\<close>

definition calculate_kpis ::
  "unicode_db \<Rightarrow> dataframe \<Rightarrow> (ustr \<rightharpoonup> ustr) \<Rightarrow> error + kpis" where
  "calculate_kpis U df detected_columns =
     (let get = get_column_sum U df detected_columns;
          k = \<lparr>revenus_totaux = Fin 0, ebitda = Fin 0, resultat_net = Fin 0,
               free_cash_flow = Fin 0, marge_nette = Fin 0\<rparr>
      in
      bind_error (get (lit ''revenus'')) (\<lambda>total.
      let k = k\<lparr>revenus_totaux := total\<rparr> in
      bind_error (get (lit ''resultat_operationnel'')) (\<lambda>resultat_op.
      bind_error (get (lit ''amortissements'')) (\<lambda>amortissements.
      bind_error
        (if fl_gt resultat_op (Fin 0)
         then Inr (k\<lparr>ebitda := fl_add resultat_op amortissements\<rparr>)
         else let revenus = revenus_totaux k in
              bind_error (get (lit ''charges'')) (\<lambda>charges.
              Inr (k\<lparr>ebitda := fl_sub revenus charges\<rparr>))) (\<lambda>k.
      bind_error (get (lit ''resultat_net'')) (\<lambda>net_income.
      bind_error
        (if fl_gt net_income (Fin 0)
         then Inr (k\<lparr>resultat_net := net_income\<rparr>)
         else let revenus = revenus_totaux k in
              bind_error (get (lit ''charges'')) (\<lambda>charges.
              bind_error (get (lit ''impots'')) (\<lambda>impots.
              Inr (k\<lparr>resultat_net := fl_sub (fl_sub revenus charges) impots\<rparr>)))) (\<lambda>k.
      bind_error (get (lit ''cash_flow'')) (\<lambda>cash_flow.
      bind_error (get (lit ''investissements'')) (\<lambda>investissements.
      let k = (if fl_gt cash_flow (Fin 0)
               then k\<lparr>free_cash_flow := fl_sub cash_flow investissements\<rparr>
               else k\<lparr>free_cash_flow := fl_sub (resultat_net k) investissements\<rparr>)
      in if fl_gt (revenus_totaux k) (Fin 0)
         then bind_error (fl_truediv (resultat_net k) (revenus_totaux k)) (\<lambda>q.
              Inr (k\<lparr>marge_nette := fl_mul q (Fin 100)\<rparr>))
         else Inr k)))))))))"

section \<open>The sample of \<open>backend_test.py\<close>\<close>

text \<open>
  \<open>create_sample_csv\<close> writes seven columns and five rows. Read back by
  \<open>pd.read_csv\<close>, the six columns of amounts hold integers and \<open>Date\<close> holds text.
\<close>

definition sample_df :: dataframe where
  "sample_df =
     \<lparr>columns = map lit [''Date'', ''Revenus'', ''Charges'', ''EBITDA'', ''Resultat_Net'',
                          ''Cash_Flow'', ''Investissements''],
      series = (\<lambda>label.
        if label = lit ''Date''
          then map (\<lambda>s. Str (lit s)) [''2024-01'', ''2024-02'', ''2024-03'', ''2024-04'', ''2024-05'']
        else if label = lit ''Revenus''
          then map PyInt [100000, 120000, 110000, 130000, 125000]
        else if label = lit ''Charges''
          then map PyInt [60000, 70000, 65000, 75000, 72000]
        else if label = lit ''EBITDA''
          then map PyInt [45000, 55000, 50000, 60000, 58000]
        else if label = lit ''Resultat_Net''
          then map PyInt [25000, 30000, 28000, 35000, 33000]
        else if label = lit ''Cash_Flow''
          then map PyInt [30000, 35000, 32000, 40000, 38000]
        else if label = lit ''Investissements''
          then map PyInt [5000, 8000, 6000, 10000, 7000]
        else [])\<rparr>"

text \<open>
  A database that knows no whitespace and no digit outside ASCII, and lowers no
  non-ASCII string: on ASCII text, as in the sample, no database is consulted.
\<close>

definition ascii_db :: unicode_db where
  "ascii_db = \<lparr>lower_of = (\<lambda>s. s), space_of = (\<lambda>c. False), decimal_of = (\<lambda>c. None)\<rparr>"

section \<open>Notions of the specification\<close>

text \<open>
  The specification's detector, in its own words: a pattern and a normalized header
  match when one is a substring of the other; for each category of the registry, the
  first header, in the original order, that matches one of the category's patterns is
  recorded, and a category without such a header is left out.
\<close>

definition spec_match :: "ustr \<Rightarrow> ustr \<Rightarrow> bool" where
  "spec_match pattern header = (sublist pattern header \<or> sublist header pattern)"

definition spec_detect :: "unicode_db \<Rightarrow> ustr list \<Rightarrow> (ustr \<rightharpoonup> ustr)" where
  "spec_detect U headers =
     (\<lambda>category.
        case map_of COLUMN_PATTERNS category of
          None \<Rightarrow> None
        | Some patterns \<Rightarrow>
            find (\<lambda>h. list_ex (\<lambda>p. spec_match p (normalize_header U h)) patterns) headers)"

text \<open>Adding a row to a dataset: every column gets the row's cell at its end.\<close>

definition append_row :: "dataframe \<Rightarrow> (ustr \<Rightarrow> cell) \<Rightarrow> dataframe" where
  "append_row df row = df\<lparr>series := (\<lambda>label. series df label @ [row label])\<rparr>"

section \<open>Datasets and conditions used in the statements\<close>

text \<open>
  The cells \<open>float(value)\<close> can convert, and the datasets whose columns hold such cells
  only; the integers \<open>pd.read_csv\<close> stores in a column of 64-bit integers are among them.
\<close>

definition cell_convertible :: "cell \<Rightarrow> bool" where
  "cell_convertible v = (case v of PyInt n \<Rightarrow> \<bar>n\<bar> < 2 ^ 1024 - 2 ^ 970 | _ \<Rightarrow> True)"

definition cells_convertible :: "dataframe \<Rightarrow> bool" where
  "cells_convertible df =
     list_all (\<lambda>label. list_all cell_convertible (series df label)) (columns df)"

text \<open>A dataset of one row with a net loss: the sum of \<open>Resultat_Net\<close> is negative.\<close>

definition loss_df :: dataframe where
  "loss_df =
     \<lparr>columns = map lit [''Revenus'', ''Charges'', ''Resultat_Net''],
      series = (\<lambda>label.
        if label = lit ''Revenus'' then [PyInt 100]
        else if label = lit ''Charges'' then [PyInt 4]
        else if label = lit ''Resultat_Net'' then [PyInt (- 6)]
        else [])\<rparr>"

text \<open>A dataset with one column, whose one cell is the integer \<open>10^400\<close>.\<close>

definition huge_df :: dataframe where
  "huge_df = \<lparr>columns = [lit ''Revenus''], series = (\<lambda>label. [PyInt (10 ^ 400)])\<rparr>"

text \<open>A text with two points, or with a question mark, is not a number.\<close>

definition not_numeric :: "ustr \<Rightarrow> bool" where
  "not_numeric t = (2 \<le> count_list t 46 \<or> 1 \<le> count_list t 63)"

text \<open>The row used below to extend the sample: an integer zero, a blank, a text that is
  no number, a float zero, and missing values.\<close>

definition zero_row :: "ustr \<Rightarrow> cell" where
  "zero_row label =
     (if label = lit ''Revenus'' then PyInt 0
      else if label = lit ''Charges'' then Str []
      else if label = lit ''EBITDA'' then Str (lit ''n/a'')
      else if label = lit ''Cash_Flow'' then PyFloat (Fin 0)
      else Null)"

text \<open>A mapping that knows the revenue and the expenses of the sample only.\<close>

definition revenue_and_expenses :: "ustr \<rightharpoonup> ustr" where
  "revenue_and_expenses =
     [lit ''revenus'' \<mapsto> lit ''Revenus'', lit ''charges'' \<mapsto> lit ''Charges'']"

section \<open>Errors\<close>

lemma bind_error_simps [simp]:
  "bind_error (Inr x) f = f x"
  "bind_error (Inl e) f = Inl e"
  by (simp_all add: bind_error_def)

lemma bind_error_Inr_iff: "bind_error r f = Inr y \<longleftrightarrow> (\<exists>x. r = Inr x \<and> f x = Inr y)"
  by (cases r) simp_all

lemma bind_error_Inl_iff:
  "bind_error r f = Inl e \<longleftrightarrow> r = Inl e \<or> (\<exists>x. r = Inr x \<and> f x = Inl e)"
  by (cases r) simp_all

lemma bind_error_InrE:
  assumes "bind_error r f = Inr y"
  obtains x where "r = Inr x" and "f x = Inr y"
  using assms by (cases r) simp_all

lemma bind_error_InlE:
  assumes "bind_error r f = Inl e"
  obtains "r = Inl e" | x where "r = Inr x" and "f x = Inl e"
  using assms by (cases r) simp_all

lemma py_float_error: "py_float U s = Inl e \<Longrightarrow> e = ValueError"
  by (auto simp: py_float_def Let_def split: option.splits)

section \<open>The sample, evaluated\<close>

lemma float_of_int_small: "\<bar>n\<bar> < 2 ^ 53 \<Longrightarrow> float_of_int n = Inr (Fin (of_int n))"
  by (simp add: float_of_int_def)

lemma sample_detect:
  "detect_columns U sample_df =
     [lit ''revenus'' \<mapsto> lit ''Revenus'',
      lit ''charges'' \<mapsto> lit ''Charges'',
      lit ''ebitda'' \<mapsto> lit ''EBITDA'',
      lit ''resultat_operationnel'' \<mapsto> lit ''EBITDA'',
      lit ''resultat_net'' \<mapsto> lit ''Resultat_Net'',
      lit ''cash_flow'' \<mapsto> lit ''Cash_Flow'',
      lit ''investissements'' \<mapsto> lit ''Investissements'',
      lit ''date'' \<mapsto> lit ''Date'']"
  by (simp add: detect_columns_def sample_df_def COLUMN_PATTERNS_def lit_def is_ascii_def
      ascii_lower_def replace_char_def py_lower_def normalize_header_def enumerate_eq_zip)

lemma sample_sums:
  "get_column_sum U sample_df (detect_columns U sample_df) (lit ''revenus'') = Inr (Fin 585000)"
  "get_column_sum U sample_df (detect_columns U sample_df) (lit ''charges'') = Inr (Fin 342000)"
  "get_column_sum U sample_df (detect_columns U sample_df) (lit ''resultat_operationnel'') =
     Inr (Fin 268000)"
  "get_column_sum U sample_df (detect_columns U sample_df) (lit ''amortissements'') = Inr (Fin 0)"
  "get_column_sum U sample_df (detect_columns U sample_df) (lit ''resultat_net'') =
     Inr (Fin 151000)"
  "get_column_sum U sample_df (detect_columns U sample_df) (lit ''impots'') = Inr (Fin 0)"
  "get_column_sum U sample_df (detect_columns U sample_df) (lit ''cash_flow'') = Inr (Fin 175000)"
  "get_column_sum U sample_df (detect_columns U sample_df) (lit ''investissements'') =
     Inr (Fin 36000)"
  unfolding sample_detect
  by (simp_all add: get_column_sum_def sample_df_def clean_numeric_value_def float_of_int_small
      lit_def)

lemma sample_kpis:
  "calculate_kpis U sample_df (detect_columns U sample_df) =
     Inr \<lparr>revenus_totaux = Fin 585000, ebitda = Fin 268000, resultat_net = Fin 151000,
          free_cash_flow = Fin 139000, marge_nette = Fin (151000 / 585000 * 100)\<rparr>"
  by (simp add: calculate_kpis_def sample_sums fl_sub_def)

lemma sample_convertible: "cells_convertible sample_df"
  by (simp add: cells_convertible_def cell_convertible_def sample_df_def lit_def)

lemma partial_sums:
  "get_column_sum U sample_df revenue_and_expenses c =
   (if c = lit ''charges'' then Inr (Fin 342000)
    else if c = lit ''revenus'' then Inr (Fin 585000) else Inr (Fin 0))"
  by (simp add: revenue_and_expenses_def get_column_sum_def sample_df_def
      clean_numeric_value_def float_of_int_small lit_def)

section \<open>The indicators in closed form\<close>

lemma fl_truediv_pos: "fl_gt y (Fin 0) \<Longrightarrow> \<exists>q. fl_truediv x y = Inr q"
  by (cases y; cases x) auto

text \<open>What a returned result says about the column sums and the five fields.\<close>

lemma calculate_kpis_InrD:
  assumes "calculate_kpis U df dc = Inr k"
  shows "\<exists>ro am ni cf inv.
      get_column_sum U df dc (lit ''revenus'') = Inr (revenus_totaux k)
    \<and> get_column_sum U df dc (lit ''resultat_operationnel'') = Inr ro
    \<and> get_column_sum U df dc (lit ''amortissements'') = Inr am
    \<and> get_column_sum U df dc (lit ''resultat_net'') = Inr ni
    \<and> get_column_sum U df dc (lit ''cash_flow'') = Inr cf
    \<and> get_column_sum U df dc (lit ''investissements'') = Inr inv
    \<and> (if fl_gt ro (Fin 0) then ebitda k = fl_add ro am
        else \<exists>ch. get_column_sum U df dc (lit ''charges'') = Inr ch
                \<and> ebitda k = fl_sub (revenus_totaux k) ch)
    \<and> (if fl_gt ni (Fin 0) then resultat_net k = ni
        else \<exists>ch im. get_column_sum U df dc (lit ''charges'') = Inr ch
                   \<and> get_column_sum U df dc (lit ''impots'') = Inr im
                   \<and> resultat_net k = fl_sub (fl_sub (revenus_totaux k) ch) im)
    \<and> free_cash_flow k =
        (if fl_gt cf (Fin 0) then fl_sub cf inv else fl_sub (resultat_net k) inv)
    \<and> (if fl_gt (revenus_totaux k) (Fin 0)
        then \<exists>q. fl_truediv (resultat_net k) (revenus_totaux k) = Inr q
                 \<and> marge_nette k = fl_mul q (Fin 100)
        else marge_nette k = Fin 0)"
  using assms unfolding calculate_kpis_def Let_def
  by (elim bind_error_InrE) (simp split: if_splits, auto elim!: bind_error_InrE)

text \<open>The function returns when every column sum does, and every column sum does when
  the cells can be converted.\<close>

lemma calculate_kpis_total:
  assumes "\<And>c. \<exists>x. get_column_sum U df dc c = Inr x"
  shows "\<exists>k. calculate_kpis U df dc = Inr k"
proof -
  obtain rt where rt: "get_column_sum U df dc (lit ''revenus'') = Inr rt" using assms by blast
  obtain ro where ro: "get_column_sum U df dc (lit ''resultat_operationnel'') = Inr ro"
    using assms by blast
  obtain am where am: "get_column_sum U df dc (lit ''amortissements'') = Inr am"
    using assms by blast
  obtain ch where ch: "get_column_sum U df dc (lit ''charges'') = Inr ch" using assms by blast
  obtain ni where ni: "get_column_sum U df dc (lit ''resultat_net'') = Inr ni"
    using assms by blast
  obtain im where im: "get_column_sum U df dc (lit ''impots'') = Inr im" using assms by blast
  obtain cf where cf: "get_column_sum U df dc (lit ''cash_flow'') = Inr cf" using assms by blast
  obtain inv where inv: "get_column_sum U df dc (lit ''investissements'') = Inr inv"
    using assms by blast
  show ?thesis
  proof (cases "fl_gt rt (Fin 0)")
    case True
    then have "\<exists>q. fl_truediv x rt = Inr q" for x by (rule fl_truediv_pos)
    then show ?thesis
      unfolding calculate_kpis_def Let_def rt ro am ch ni im cf inv
      using True by (auto simp: bind_error_Inr_iff)
  next
    case False
    then show ?thesis
      unfolding calculate_kpis_def Let_def rt ro am ch ni im cf inv by simp
  qed
qed

lemma clean_numeric_value_total:
  "cell_convertible v \<Longrightarrow> \<exists>x. clean_numeric_value U v = Inr x"
  by (cases v) (auto simp: clean_numeric_value_def cell_convertible_def float_of_int_def Let_def
      dest: py_float_error split: sum.splits)

lemma sum_cleaned_total:
  "list_all cell_convertible vals \<Longrightarrow> \<exists>x. sum_cleaned U acc vals = Inr x"
proof (induction vals arbitrary: acc)
  case Nil
  then show ?case by simp
next
  case (Cons v vals)
  then obtain x where "clean_numeric_value U v = Inr x"
    using clean_numeric_value_total [of v U] by auto
  then show ?case using Cons by simp
qed

lemma get_column_sum_total:
  "cells_convertible df \<Longrightarrow> \<exists>x. get_column_sum U df dc c = Inr x"
  by (auto simp: get_column_sum_def cells_convertible_def list_all_iff sum_cleaned_total
      split: option.splits)

lemma calculate_kpis_convertible:
  "cells_convertible df \<Longrightarrow> \<exists>k. calculate_kpis U df dc = Inr k"
  by (rule calculate_kpis_total) (rule get_column_sum_total)

text \<open>The mapping and the dataset enter the result through eight column sums only.\<close>

lemma calculate_kpis_cong:
  assumes "get_column_sum U df dc (lit ''revenus'') = get_column_sum U' df' dc' (lit ''revenus'')"
    and "get_column_sum U df dc (lit ''resultat_operationnel'') =
         get_column_sum U' df' dc' (lit ''resultat_operationnel'')"
    and "get_column_sum U df dc (lit ''amortissements'') =
         get_column_sum U' df' dc' (lit ''amortissements'')"
    and "get_column_sum U df dc (lit ''charges'') = get_column_sum U' df' dc' (lit ''charges'')"
    and "get_column_sum U df dc (lit ''resultat_net'') =
         get_column_sum U' df' dc' (lit ''resultat_net'')"
    and "get_column_sum U df dc (lit ''impots'') = get_column_sum U' df' dc' (lit ''impots'')"
    and "get_column_sum U df dc (lit ''cash_flow'') =
         get_column_sum U' df' dc' (lit ''cash_flow'')"
    and "get_column_sum U df dc (lit ''investissements'') =
         get_column_sum U' df' dc' (lit ''investissements'')"
  shows "calculate_kpis U df dc = calculate_kpis U' df' dc'"
  unfolding calculate_kpis_def Let_def assms ..

lemma ebitda_key_unused:
  "calculate_kpis U df (dc(lit ''ebitda'' := h)) = calculate_kpis U df dc"
  by (rule calculate_kpis_cong) (simp_all add: get_column_sum_def lit_def)

text \<open>A sum of \<open>resultat_net\<close> that is not greater than 0 counts as an absent category.\<close>

lemma resultat_net_absent:
  assumes "get_column_sum U df dc (lit ''resultat_net'') = Inr ni" and "\<not> fl_gt ni (Fin 0)"
  shows "calculate_kpis U df (dc(lit ''resultat_net'' := None)) = calculate_kpis U df dc"
proof -
  let ?dc' = "dc(lit ''resultat_net'' := None)"
  have same: "get_column_sum U df ?dc' c = get_column_sum U df dc c"
    if "c \<noteq> lit ''resultat_net''" for c
    using that by (simp add: get_column_sum_def)
  have absent: "get_column_sum U df ?dc' (lit ''resultat_net'') = Inr (Fin 0)"
    by (simp add: get_column_sum_def)
  have neq: "lit ''revenus'' \<noteq> lit ''resultat_net''" "lit ''charges'' \<noteq> lit ''resultat_net''"
    "lit ''impots'' \<noteq> lit ''resultat_net''" "lit ''resultat_operationnel'' \<noteq> lit ''resultat_net''"
    "lit ''amortissements'' \<noteq> lit ''resultat_net''" "lit ''cash_flow'' \<noteq> lit ''resultat_net''"
    "lit ''investissements'' \<noteq> lit ''resultat_net''"
    by (simp_all add: lit_def)
  show ?thesis
    unfolding calculate_kpis_def Let_def neq [THEN same] absent assms(1)
    using assms(2) by simp
qed

lemma fl_add_zero_right: "fl_add x (Fin 0) = x"
  by (cases x) simp_all

lemma sum_cleaned_append:
  "sum_cleaned U acc (vs @ ws) = bind_error (sum_cleaned U acc vs) (\<lambda>a. sum_cleaned U a ws)"
proof (induction vs arbitrary: acc)
  case Nil
  then show ?case by simp
next
  case (Cons v vs)
  then show ?case by (cases "clean_numeric_value U v") simp_all
qed

lemma sum_cleaned_snoc_zero:
  assumes "clean_numeric_value U v = Inr (Fin 0)"
  shows "sum_cleaned U acc (vs @ [v]) = sum_cleaned U acc vs"
  by (cases "sum_cleaned U acc vs") (simp_all add: sum_cleaned_append assms fl_add_zero_right)

lemma get_column_sum_append_row:
  assumes "\<And>h. dc c = Some h \<Longrightarrow> h \<in> set (columns df) \<Longrightarrow>
               clean_numeric_value U (row h) = Inr (Fin 0)"
  shows "get_column_sum U (append_row df row) dc c = get_column_sum U df dc c"
  using assms
  by (simp add: get_column_sum_def append_row_def sum_cleaned_snoc_zero split: option.splits)

text \<open>The only error that leaves the functions is that of an integer too large.\<close>

lemma clean_numeric_value_error:
  "clean_numeric_value U v = Inl e \<Longrightarrow> e = OverflowError"
  by (cases v) (auto simp: clean_numeric_value_def float_of_int_def Let_def
      dest: py_float_error split: sum.splits if_splits)

lemma sum_cleaned_error: "sum_cleaned U acc vals = Inl e \<Longrightarrow> e = OverflowError"
  by (induction vals arbitrary: acc)
     (auto simp: bind_error_Inl_iff dest: clean_numeric_value_error)

lemma get_column_sum_error: "get_column_sum U df dc c = Inl e \<Longrightarrow> e = OverflowError"
  by (auto simp: get_column_sum_def dest: sum_cleaned_error split: option.splits if_splits)

lemma fl_truediv_error: "fl_truediv x y = Inl e \<Longrightarrow> \<not> fl_gt y (Fin 0)"
  by (cases y; cases x) (auto split: if_splits)

lemma calculate_kpis_error:
  assumes "calculate_kpis U df dc = Inl e"
  shows "e = OverflowError"
  using assms unfolding calculate_kpis_def Let_def
  by (elim bind_error_InlE)
     (auto dest: get_column_sum_error fl_truediv_error split: if_splits elim!: bind_error_InlE)

section \<open>The detector as a search\<close>

lemma py_in_sublist: "py_in a b = sublist a b"
  by (induction b) (simp_all add: sublist_Cons_right)

lemma scan_patterns_eq:
  "scan_patterns detected ft label col patterns =
     (if list_ex (\<lambda>p. py_in p col \<or> py_in col p) patterns then detected(ft \<mapsto> label)
      else detected)"
  by (induction patterns) auto

lemma scan_columns_eq:
  assumes "detected ft = None"
  shows "scan_columns hs detected ft patterns ics =
     (case map_option (\<lambda>(i, col). hs ! i)
             (find (\<lambda>(i, col). list_ex (\<lambda>p. py_in p col \<or> py_in col p) patterns) ics) of
        None \<Rightarrow> detected
      | Some h \<Rightarrow> detected(ft \<mapsto> h))"
  using assms by (induction ics) (auto simp: scan_patterns_eq)

lemma find_enumerate:
  "map_option (\<lambda>(i, col). (pre @ hs) ! i)
     (find (\<lambda>(i, col). P col) (enumerate (length pre) (map f hs)))
   = find (\<lambda>h. P (f h)) hs"
proof (induction hs arbitrary: pre)
  case Nil
  then show ?case by simp
next
  case (Cons h hs)
  show ?case
    using Cons.IH [of "pre @ [h]"] by (simp add: nth_append)
qed

lemma scan_columns_find:
  assumes "detected ft = None"
  shows "scan_columns hs detected ft patterns (enumerate 0 (map f hs)) =
     (case find (\<lambda>h. list_ex (\<lambda>p. py_in p (f h) \<or> py_in (f h) p) patterns) hs of
        None \<Rightarrow> detected
      | Some h \<Rightarrow> detected(ft \<mapsto> h))"
  unfolding scan_columns_eq [of detected ft, OF assms]
  using find_enumerate [of "[]" hs "\<lambda>col. list_ex (\<lambda>p. py_in p col \<or> py_in col p) patterns" f]
  by simp

lemma scan_types_eq:
  assumes "distinct (map fst regs)" and "\<forall>c \<in> fst ` set regs. detected c = None"
  shows "scan_types hs (map f hs) detected regs =
     (\<lambda>c. case map_of regs c of
             None \<Rightarrow> detected c
           | Some patterns \<Rightarrow>
               find (\<lambda>h. list_ex (\<lambda>p. py_in p (f h) \<or> py_in (f h) p) patterns) hs)"
  using assms
proof (induction regs arbitrary: detected)
  case Nil
  then show ?case by simp
next
  case (Cons r regs)
  obtain ft patterns where r: "r = (ft, patterns)" by (cases r)
  let ?d = "scan_columns hs detected ft patterns (enumerate 0 (map f hs))"
  have none: "detected ft = None" using Cons.prems r by simp
  have d: "?d = (case find (\<lambda>h. list_ex (\<lambda>p. py_in p (f h) \<or> py_in (f h) p) patterns) hs of
        None \<Rightarrow> detected | Some h \<Rightarrow> detected(ft \<mapsto> h))"
    by (rule scan_columns_find [of detected ft, OF none])
  have notin: "ft \<notin> fst ` set regs" using Cons.prems r by auto
  have rest: "\<forall>c \<in> fst ` set regs. ?d c = None"
    using Cons.prems notin unfolding d by (auto split: option.splits)
  have dist: "distinct (map fst regs)" using Cons.prems by simp
  have m: "map_of regs ft = None" using notin by (simp add: map_of_eq_None_iff)
  show ?case
    unfolding r scan_types.simps Cons.IH [OF dist rest]
    by (rule ext) (auto simp: d m none split: option.splits)
qed

lemma registry_distinct: "distinct (map fst COLUMN_PATTERNS)"
  by (simp add: COLUMN_PATTERNS_def lit_def)

lemma detect_columns_find:
  "detect_columns U df =
     (\<lambda>c. case map_of COLUMN_PATTERNS c of
             None \<Rightarrow> None
           | Some patterns \<Rightarrow>
               find (\<lambda>h. list_ex (\<lambda>p. py_in p (normalize_header U h) \<or> py_in (normalize_header U h) p)
                       patterns) (columns df))"
  unfolding detect_columns_def Let_def
  by (subst scan_types_eq [OF registry_distinct]) simp_all

lemma py_in_Nil: "py_in [] b"
  by (cases b) simp_all

section \<open>Texts that \<open>float\<close> rejects\<close>

lemma count_dropWhile: "\<not> P c \<Longrightarrow> count_list (dropWhile P xs) c = count_list xs c"
  by (induction xs) auto

lemma count_takeWhile: "\<not> P c \<Longrightarrow> count_list (takeWhile P xs) c = 0"
  by (induction xs) auto

lemma count_filter: "P c \<Longrightarrow> count_list (filter P xs) c = count_list xs c"
  by (induction xs) auto

lemma count_all: "list_all P xs \<Longrightarrow> \<not> P c \<Longrightarrow> count_list xs c = 0"
  by (induction xs) auto

lemma count_py_strip: "\<not> is_space U c \<Longrightarrow> count_list (py_strip U s) c = count_list s c"
  by (simp add: py_strip_def count_dropWhile)

lemma count_strip_c_space: "\<not> is_c_space c \<Longrightarrow> count_list (strip_c_space s) c = count_list s c"
  by (simp add: strip_c_space_def count_dropWhile)

lemma count_replace_comma: "count_list s 44 \<le> count_list (replace_char 44 46 s) 46"
  by (induction s) (auto simp: replace_char_def)

lemma count_cleaned:
  "count_list s 44 \<le> count_list (replace_char 44 46 (re_sub_class U (py_strip U s))) 46"
proof -
  have "count_list (re_sub_class U (py_strip U s)) 44 = count_list s 44"
    by (simp add: re_sub_class_def count_filter count_py_strip is_space_def currency_class_def)
  then show ?thesis
    using count_replace_comma [of "re_sub_class U (py_strip U s)"] by simp
qed

lemma transform_not_numeric:
  "count_list (transform_decimal_and_space U s) 46 = count_list s 46
   \<or> 1 \<le> count_list (transform_decimal_and_space U s) 63"
  by (induction s) (auto split: option.splits)

lemma to_ascii_not_numeric: "2 \<le> count_list s 46 \<Longrightarrow> not_numeric (to_ascii U s)"
  using transform_not_numeric [of U s] by (auto simp: to_ascii_def not_numeric_def)

lemma strip_underscores_count:
  "strip_underscores prev t = Some t' \<Longrightarrow> c \<noteq> 95 \<Longrightarrow> count_list t' c = count_list t c"
  by (induction t arbitrary: prev t') (auto split: if_splits)

lemma split_sign_count:
  "split_sign s = (neg, r) \<Longrightarrow> c \<noteq> 45 \<Longrightarrow> c \<noteq> 43 \<Longrightarrow> count_list r c = count_list s c"
  by (auto simp: split_sign_def split: list.splits if_splits)

lemma parse_exponent_count:
  assumes "parse_exponent r = Some e" and "c = 46 \<or> c = 63"
  shows "count_list r c = 0"
proof (cases r)
  case Nil
  then show ?thesis by simp
next
  case (Cons x xs)
  obtain neg ds where s: "split_sign xs = (neg, ds)" by (cases "split_sign xs")
  from assms(1) Cons s have x: "x = 101 \<or> x = 69" and ds: "list_all is_digit ds"
    by (auto simp: parse_exponent_def split: if_splits)
  have "count_list ds c = 0"
    using count_all [OF ds, of c] assms(2) by (auto simp: is_digit_def)
  moreover have "count_list ds c = count_list xs c"
    using split_sign_count [OF s, of c] assms(2) by auto
  ultimately show ?thesis using Cons x assms(2) by auto
qed

lemma parse_decimal_SomeD:
  assumes "parse_decimal b = Some r" and "split_sign b = (neg, r0)"
  shows "\<exists>e. parse_exponent
               (case dropWhile is_digit r0 of
                  [] \<Rightarrow> []
                | c # cs \<Rightarrow> if c = 46 then dropWhile is_digit cs
                            else dropWhile is_digit r0) = Some e"
  using assms
  by (auto simp: parse_decimal_def Let_def split: if_splits option.splits)

lemma parse_decimal_count:
  assumes "parse_decimal b = Some r"
  shows "count_list b 46 \<le> 1 \<and> count_list b 63 = 0"
proof -
  obtain neg r0 where s: "split_sign b = (neg, r0)" by (cases "split_sign b")
  have nd: "\<not> is_digit 46" "\<not> is_digit 63" by (simp_all add: is_digit_def)
  have b46: "count_list b 46 = count_list (dropWhile is_digit r0) 46"
    and b63: "count_list b 63 = count_list (dropWhile is_digit r0) 63"
    using split_sign_count [OF s] by (simp_all add: count_dropWhile nd)
  show ?thesis
  proof (cases "dropWhile is_digit r0")
    case Nil
    show ?thesis unfolding b46 b63 Nil by simp
  next
    case (Cons c cs)
    show ?thesis
    proof (cases "c = 46")
      case True
      then obtain e where "parse_exponent (dropWhile is_digit cs) = Some e"
        using parse_decimal_SomeD [OF assms s] Cons by auto
      then have "count_list (dropWhile is_digit cs) 46 = 0" "count_list (dropWhile is_digit cs) 63 = 0"
        using parse_exponent_count by simp_all
      then have "count_list cs 46 = 0" "count_list cs 63 = 0"
        by (simp_all add: count_dropWhile nd)
      then show ?thesis by (simp add: b46 b63 Cons True)
    next
      case False
      then obtain e where "parse_exponent (c # cs) = Some e"
        using parse_decimal_SomeD [OF assms s] Cons by auto
      then have "count_list (c # cs) 46 = 0" "count_list (c # cs) 63 = 0"
        using parse_exponent_count by blast+
      then show ?thesis by (simp add: b46 b63 Cons)
    qed
  qed
qed

lemma parse_inf_or_nan_count:
  assumes "parse_inf_or_nan b = Some x"
  shows "count_list b 46 = 0 \<and> count_list b 63 = 0"
proof -
  obtain neg r where s: "split_sign b = (neg, r)" by (cases "split_sign b")
  from assms s have l: "map ascii_lower r \<in> {lit ''inf'', lit ''infinity'', lit ''nan''}"
    by (auto simp: parse_inf_or_nan_def Let_def split: if_splits)
  have "c \<in> set r \<Longrightarrow> c \<noteq> 46 \<and> c \<noteq> 63" for c
  proof
    assume c: "c \<in> set r"
    then have "ascii_lower c \<in> set (map ascii_lower r)" by simp
    then have "ascii_lower c \<in> {105, 110, 102, 116, 121, 97}"
      using l by (auto simp: lit_def)
    then show "c \<noteq> 46" "c \<noteq> 63" by (auto simp: ascii_lower_def)
  qed
  then have "count_list r 46 = 0 \<and> count_list r 63 = 0"
    by (auto simp: count_list_0_iff)
  then show ?thesis using split_sign_count [OF s] by simp
qed

lemma py_float_two_points:
  assumes "2 \<le> count_list s 46"
  shows "py_float U s = Inl ValueError"
proof (cases "strip_underscores 0 (to_ascii U s)")
  case None
  then show ?thesis by (simp add: py_float_def)
next
  case (Some t)
  let ?b = "strip_c_space t"
  have "not_numeric (to_ascii U s)" by (rule to_ascii_not_numeric [OF assms])
  then have "not_numeric t"
    using strip_underscores_count [OF Some] by (simp add: not_numeric_def)
  then have b: "not_numeric ?b"
    by (simp add: not_numeric_def count_strip_c_space is_c_space_def)
  have "parse_decimal ?b = None"
    using parse_decimal_count [of ?b] b by (cases "parse_decimal ?b") (auto simp: not_numeric_def)
  moreover have "parse_inf_or_nan ?b = None"
    using parse_inf_or_nan_count [of ?b] b
    by (cases "parse_inf_or_nan ?b") (auto simp: not_numeric_def)
  ultimately show ?thesis using Some by (simp add: py_float_def)
qed

section \<open>Evaluation of cleaning on concrete texts\<close>

lemmas float_eval = py_float_def to_ascii_def is_ascii_def strip_c_space_def is_c_space_def
  parse_decimal_def split_sign_def is_digit_def parse_exponent_def digits_val_def pow10_def
  parse_inf_or_nan_def ascii_lower_def

lemmas clean_eval = clean_numeric_value_def py_strip_def is_space_def re_sub_class_def
  currency_class_def replace_char_def

lemma zero_row_clean: "clean_numeric_value U (zero_row h) = Inr (Fin 0)"
  by (simp add: zero_row_def lit_def clean_eval float_eval float_of_int_def)

lemma huge_cell: "clean_numeric_value U (PyInt (10 ^ 400)) = Inl OverflowError"
  by (simp add: clean_numeric_value_def float_of_int_def)

section \<open>Two more datasets, evaluated\<close>

lemma partial_kpis:
  "calculate_kpis U sample_df revenue_and_expenses =
     Inr \<lparr>revenus_totaux = Fin 585000, ebitda = Fin 243000, resultat_net = Fin 243000,
          free_cash_flow = Fin 243000, marge_nette = Fin (243000 / 585000 * 100)\<rparr>"
  unfolding calculate_kpis_def partial_sums by (simp add: lit_def fl_sub_def)

lemma loss_detect:
  "detect_columns U loss_df =
     [lit ''revenus'' \<mapsto> lit ''Revenus'', lit ''charges'' \<mapsto> lit ''Charges'',
      lit ''resultat_net'' \<mapsto> lit ''Resultat_Net'']"
  by (simp add: detect_columns_def loss_df_def COLUMN_PATTERNS_def lit_def is_ascii_def
      ascii_lower_def replace_char_def py_lower_def normalize_header_def enumerate_eq_zip)

lemma loss_sums:
  "get_column_sum U loss_df (detect_columns U loss_df) c =
   (if c = lit ''resultat_net'' then Inr (Fin (- 6))
    else if c = lit ''charges'' then Inr (Fin 4)
    else if c = lit ''revenus'' then Inr (Fin 100) else Inr (Fin 0))"
  unfolding loss_detect
  by (simp add: get_column_sum_def loss_df_def clean_numeric_value_def float_of_int_small lit_def)

lemma loss_kpis:
  "calculate_kpis U loss_df (detect_columns U loss_df) =
     Inr \<lparr>revenus_totaux = Fin 100, ebitda = Fin 96, resultat_net = Fin 96,
          free_cash_flow = Fin 96, marge_nette = Fin 96\<rparr>"
  unfolding calculate_kpis_def loss_sums by (simp add: lit_def fl_sub_def)

lemma loss_convertible: "cells_convertible loss_df"
  by (simp add: cells_convertible_def cell_convertible_def loss_df_def lit_def)

section \<open>The claims\<close>

text \<open>
  Claim C1, as the code has it. For the sample of \<open>backend_test.py\<close> (the headers
  \<open>Date, Revenus, Charges, EBITDA, Resultat_Net, Cash_Flow, Investissements\<close> and the
  five rows of the scenario, whose \<open>EBITDA\<close> column is 45000, 55000, 50000, 60000, 58000),
  \<open>detect_columns\<close> followed by \<open>calculate_kpis\<close> yields \<open>revenus_totaux = 585000\<close>,
  \<open>resultat_net = 151000\<close>, \<open>free_cash_flow = 139000\<close> and
  \<open>marge_nette = 151000 / 585000 * 100\<close>. The header \<open>EBITDA\<close> is recorded for the
  category \<open>resultat_operationnel\<close>, whose pattern \<open>ebit\<close> is a substring of \<open>ebitda\<close>,
  and no header is recorded for \<open>amortissements\<close>; the sum of that column, 268000, is
  positive, so \<open>ebitda\<close> comes from the first branch and is 268000.
\<close>

theorem sample_scenario:
  "detect_columns U sample_df (lit ''resultat_operationnel'') = Some (lit ''EBITDA'')
   \<and> detect_columns U sample_df (lit ''amortissements'') = None
   \<and> get_column_sum U sample_df (detect_columns U sample_df) (lit ''resultat_operationnel'') =
       Inr (Fin 268000)
   \<and> calculate_kpis U sample_df (detect_columns U sample_df) =
       Inr \<lparr>revenus_totaux = Fin 585000, ebitda = Fin 268000, resultat_net = Fin 151000,
            free_cash_flow = Fin 139000, marge_nette = Fin (151000 / 585000 * 100)\<rparr>"
  by (simp add: sample_kpis sample_sums) (simp add: sample_detect lit_def)

theorem sample_scenario_witness:
  "calculate_kpis ascii_db sample_df (detect_columns ascii_db sample_df) =
       Inr \<lparr>revenus_totaux = Fin 585000, ebitda = Fin 268000, resultat_net = Fin 151000,
            free_cash_flow = Fin 139000, marge_nette = Fin (151000 / 585000 * 100)\<rparr>"
  using sample_scenario [of ascii_db] by simp

text \<open>
  The claim as stated fails on the sample: \<open>resultat_operationnel\<close> does have a
  matching header, and the result is not the one with \<open>ebitda = 243000\<close>.
\<close>

theorem sample_scenario_counterexample:
  "detect_columns ascii_db sample_df (lit ''resultat_operationnel'') \<noteq> None
   \<and> calculate_kpis ascii_db sample_df (detect_columns ascii_db sample_df) \<noteq>
       Inr \<lparr>revenus_totaux = Fin 585000, ebitda = Fin 243000, resultat_net = Fin 151000,
            free_cash_flow = Fin 139000, marge_nette = Fin (151000 / 585000 * 100)\<rparr>"
  by (simp add: sample_kpis) (simp add: sample_detect lit_def)

text \<open>
  Claim C2 says that cleaning removes the currency symbols \<open>$\<close>, euro, pound, yen and
  rupee, so that the text of a euro sign followed by \<open>1200\<close> gives 1200. The character
  class of the source does not hold the euro sign (\<open>U+20AC\<close>): in every Unicode database
  in which that sign is neither whitespace nor a digit, the sign survives the
  substitution, \<open>float\<close> rejects the text and the result is 0. A dollar sign is removed.
\<close>

theorem euro_is_kept:
  assumes "\<not> space_of U 8364" and "decimal_of U 8364 = None"
  shows "re_sub_class U (8364 # lit ''1200'') = 8364 # lit ''1200''
       \<and> py_float U (8364 # lit ''1200'') = Inl ValueError
       \<and> clean_numeric_value U (Str (8364 # lit ''1200'')) = Inr (Fin 0)
       \<and> clean_numeric_value U (Str (lit ''$1200'')) = Inr (Fin 1200)"
  using assms
  by (simp add: clean_numeric_value_def lit_def py_strip_def is_space_def re_sub_class_def
      currency_class_def replace_char_def py_float_def to_ascii_def is_ascii_def decimal_def
      strip_c_space_def is_c_space_def parse_decimal_def split_sign_def is_digit_def
      parse_exponent_def digits_val_def pow10_def parse_inf_or_nan_def ascii_lower_def)

theorem euro_is_kept_witness:
  "clean_numeric_value ascii_db (Str (8364 # lit ''1200'')) = Inr (Fin 0)"
  using euro_is_kept [of ascii_db] by (simp add: ascii_db_def)

text \<open>
  Claim C3. For every dataset and mapping, whenever \<open>calculate_kpis\<close> returns, the
  \<open>ebitda\<close> of its result is the sum of \<open>resultat_operationnel\<close> plus the sum of
  \<open>amortissements\<close> when the former is greater than 0, and \<open>revenus_totaux\<close> (the sum
  of \<open>revenus\<close>) minus the sum of \<open>charges\<close> otherwise. The entry of the mapping for the
  category \<open>ebitda\<close> is never read: changing or removing it changes nothing, and a
  mapping that holds nothing else gives what the empty mapping gives. The function
  returns on every dataset whose cells can be converted.
\<close>

theorem ebitda_formula:
  "(calculate_kpis U df dc = Inr k \<longrightarrow>
      (\<exists>ro am. get_column_sum U df dc (lit ''revenus'') = Inr (revenus_totaux k)
         \<and> get_column_sum U df dc (lit ''resultat_operationnel'') = Inr ro
         \<and> get_column_sum U df dc (lit ''amortissements'') = Inr am
         \<and> (if fl_gt ro (Fin 0) then ebitda k = fl_add ro am
             else \<exists>ch. get_column_sum U df dc (lit ''charges'') = Inr ch
                     \<and> ebitda k = fl_sub (revenus_totaux k) ch)))
   \<and> calculate_kpis U df (dc(lit ''ebitda'' := h)) = calculate_kpis U df dc
   \<and> calculate_kpis U df [lit ''ebitda'' \<mapsto> x] = calculate_kpis U df Map.empty
   \<and> (cells_convertible df \<longrightarrow> (\<exists>k'. calculate_kpis U df dc = Inr k'))"
proof (intro conjI impI)
  assume "calculate_kpis U df dc = Inr k"
  from calculate_kpis_InrD [OF this]
  show "\<exists>ro am. get_column_sum U df dc (lit ''revenus'') = Inr (revenus_totaux k)
         \<and> get_column_sum U df dc (lit ''resultat_operationnel'') = Inr ro
         \<and> get_column_sum U df dc (lit ''amortissements'') = Inr am
         \<and> (if fl_gt ro (Fin 0) then ebitda k = fl_add ro am
             else \<exists>ch. get_column_sum U df dc (lit ''charges'') = Inr ch
                     \<and> ebitda k = fl_sub (revenus_totaux k) ch)"
    by blast
next
  show "calculate_kpis U df (dc(lit ''ebitda'' := h)) = calculate_kpis U df dc"
    by (rule ebitda_key_unused)
  show "calculate_kpis U df [lit ''ebitda'' \<mapsto> x] = calculate_kpis U df Map.empty"
    using ebitda_key_unused [of U df Map.empty "Some x"] by simp
next
  assume "cells_convertible df"
  then show "\<exists>k'. calculate_kpis U df dc = Inr k'"
    by (rule calculate_kpis_convertible)
qed

theorem ebitda_formula_witness:
  "cells_convertible sample_df
   \<and> (\<exists>k. calculate_kpis ascii_db sample_df (detect_columns ascii_db sample_df) = Inr k
        \<and> ebitda k = Fin 268000
        \<and> calculate_kpis ascii_db sample_df
            ((detect_columns ascii_db sample_df)(lit ''ebitda'' := None)) = Inr k)"
  using ebitda_formula [of ascii_db sample_df "detect_columns ascii_db sample_df"
      "\<lparr>revenus_totaux = Fin 585000, ebitda = Fin 268000, resultat_net = Fin 151000,
        free_cash_flow = Fin 139000, marge_nette = Fin (151000 / 585000 * 100)\<rparr>" None]
  by (simp add: sample_sums sample_kpis sample_convertible)

text \<open>
  Claim C4. For every sequence of headers, \<open>detect_columns\<close> computes what the ordered
  scan of the specification computes: each category of the registry gets the first
  header, in the original order, one of whose patterns is a substring of the normalized
  header or has the normalized header as a substring. For the headers \<open>Date\<close>,
  \<open>Revenus\<close>, \<open>Charges\<close> the result is exactly
  \<open>{date: Date, revenus: Revenus, charges: Charges}\<close>.
\<close>

theorem detect_columns_ordered_scan:
  "detect_columns U df = spec_detect U (columns df)
   \<and> detect_columns U \<lparr>columns = map lit [''Date'', ''Revenus'', ''Charges''], series = cells\<rparr> =
       [lit ''date'' \<mapsto> lit ''Date'', lit ''revenus'' \<mapsto> lit ''Revenus'',
        lit ''charges'' \<mapsto> lit ''Charges'']"
proof
  show "detect_columns U df = spec_detect U (columns df)"
    unfolding detect_columns_find spec_detect_def spec_match_def py_in_sublist ..
  have "detect_columns U \<lparr>columns = map lit [''Date'', ''Revenus'', ''Charges''], series = cells\<rparr> =
       [lit ''revenus'' \<mapsto> lit ''Revenus'', lit ''charges'' \<mapsto> lit ''Charges'',
        lit ''date'' \<mapsto> lit ''Date'']"
    by (simp add: detect_columns_def COLUMN_PATTERNS_def lit_def is_ascii_def ascii_lower_def
        replace_char_def py_lower_def normalize_header_def enumerate_eq_zip)
  also have "\<dots> = [lit ''date'' \<mapsto> lit ''Date'', lit ''revenus'' \<mapsto> lit ''Revenus'',
        lit ''charges'' \<mapsto> lit ''Charges'']"
    by (rule ext) (simp add: lit_def)
  finally show "detect_columns U \<lparr>columns = map lit [''Date'', ''Revenus'', ''Charges''], series = cells\<rparr> =
       [lit ''date'' \<mapsto> lit ''Date'', lit ''revenus'' \<mapsto> lit ''Revenus'',
        lit ''charges'' \<mapsto> lit ''Charges'']" .
qed

theorem detect_columns_ordered_scan_witness:
  "spec_detect ascii_db (columns sample_df) (lit ''resultat_operationnel'') = Some (lit ''EBITDA'')
   \<and> spec_detect ascii_db (columns sample_df) (lit ''impots'') = None"
  using detect_columns_ordered_scan [of ascii_db sample_df, THEN conjunct1, symmetric]
  by (simp add: sample_detect) (simp add: lit_def)

text \<open>
  Claim C5. For every dataset and mapping, whenever \<open>calculate_kpis\<close> returns,
  \<open>resultat_net\<close> is the sum of the \<open>resultat_net\<close> column when that sum is greater
  than 0, and \<open>revenus_totaux\<close> minus the sum of \<open>charges\<close> minus the sum of \<open>impots\<close>
  otherwise; when the sum is not greater than 0, the whole result is the one computed
  without the category in the mapping. The function returns, with and without the
  category, on every dataset whose cells can be converted.
\<close>

theorem resultat_net_formula:
  "(calculate_kpis U df dc = Inr k \<longrightarrow>
      (\<exists>ni. get_column_sum U df dc (lit ''revenus'') = Inr (revenus_totaux k)
         \<and> get_column_sum U df dc (lit ''resultat_net'') = Inr ni
         \<and> (if fl_gt ni (Fin 0) then resultat_net k = ni
             else (\<exists>ch im. get_column_sum U df dc (lit ''charges'') = Inr ch
                     \<and> get_column_sum U df dc (lit ''impots'') = Inr im
                     \<and> resultat_net k = fl_sub (fl_sub (revenus_totaux k) ch) im)
                  \<and> calculate_kpis U df (dc(lit ''resultat_net'' := None)) = Inr k)))
   \<and> (cells_convertible df \<longrightarrow>
        (\<exists>k' k''. calculate_kpis U df dc = Inr k'
           \<and> calculate_kpis U df (dc(lit ''resultat_net'' := None)) = Inr k''))"
proof (intro conjI impI)
  assume k: "calculate_kpis U df dc = Inr k"
  from calculate_kpis_InrD [OF k] obtain ni where
    rt: "get_column_sum U df dc (lit ''revenus'') = Inr (revenus_totaux k)" and
    ni: "get_column_sum U df dc (lit ''resultat_net'') = Inr ni" and
    rn: "if fl_gt ni (Fin 0) then resultat_net k = ni
        else \<exists>ch im. get_column_sum U df dc (lit ''charges'') = Inr ch
                   \<and> get_column_sum U df dc (lit ''impots'') = Inr im
                   \<and> resultat_net k = fl_sub (fl_sub (revenus_totaux k) ch) im"
    by blast
  have "calculate_kpis U df (dc(lit ''resultat_net'' := None)) = Inr k" if "\<not> fl_gt ni (Fin 0)"
    using resultat_net_absent [OF ni that] k by simp
  with rt ni rn
  show "\<exists>ni. get_column_sum U df dc (lit ''revenus'') = Inr (revenus_totaux k)
         \<and> get_column_sum U df dc (lit ''resultat_net'') = Inr ni
         \<and> (if fl_gt ni (Fin 0) then resultat_net k = ni
             else (\<exists>ch im. get_column_sum U df dc (lit ''charges'') = Inr ch
                     \<and> get_column_sum U df dc (lit ''impots'') = Inr im
                     \<and> resultat_net k = fl_sub (fl_sub (revenus_totaux k) ch) im)
                  \<and> calculate_kpis U df (dc(lit ''resultat_net'' := None)) = Inr k)"
    by (intro exI [of _ ni]) (simp split: if_splits)
next
  assume c: "cells_convertible df"
  show "\<exists>k' k''. calculate_kpis U df dc = Inr k'
           \<and> calculate_kpis U df (dc(lit ''resultat_net'' := None)) = Inr k''"
    using calculate_kpis_convertible [OF c, of U dc]
      calculate_kpis_convertible [OF c, of U "dc(lit ''resultat_net'' := None)"]
    by blast
qed

theorem resultat_net_formula_witness:
  "cells_convertible loss_df
   \<and> get_column_sum ascii_db loss_df (detect_columns ascii_db loss_df) (lit ''resultat_net'') =
       Inr (Fin (- 6))
   \<and> calculate_kpis ascii_db loss_df (detect_columns ascii_db loss_df) =
       Inr \<lparr>revenus_totaux = Fin 100, ebitda = Fin 96, resultat_net = Fin 96,
            free_cash_flow = Fin 96, marge_nette = Fin 96\<rparr>
   \<and> calculate_kpis ascii_db loss_df
        ((detect_columns ascii_db loss_df)(lit ''resultat_net'' := None)) =
       Inr \<lparr>revenus_totaux = Fin 100, ebitda = Fin 96, resultat_net = Fin 96,
            free_cash_flow = Fin 96, marge_nette = Fin 96\<rparr>"
  using resultat_net_formula [of ascii_db loss_df "detect_columns ascii_db loss_df"
      "\<lparr>revenus_totaux = Fin 100, ebitda = Fin 96, resultat_net = Fin 96,
        free_cash_flow = Fin 96, marge_nette = Fin 96\<rparr>"]
  by (simp add: loss_kpis loss_convertible loss_sums)

text \<open>
  Claim C6. For every dataset and mapping, whenever \<open>calculate_kpis\<close> returns,
  \<open>free_cash_flow\<close> is the sum of \<open>cash_flow\<close> minus the sum of \<open>investissements\<close>
  when the former is greater than 0, and otherwise the \<open>resultat_net\<close> indicator already
  computed (after its own fallback, as stated) minus the sum of \<open>investissements\<close>. The
  function returns on every dataset whose cells can be converted.
\<close>

theorem free_cash_flow_formula:
  "(calculate_kpis U df dc = Inr k \<longrightarrow>
      (\<exists>cf inv ni. get_column_sum U df dc (lit ''cash_flow'') = Inr cf
         \<and> get_column_sum U df dc (lit ''investissements'') = Inr inv
         \<and> free_cash_flow k =
             (if fl_gt cf (Fin 0) then fl_sub cf inv else fl_sub (resultat_net k) inv)
         \<and> get_column_sum U df dc (lit ''resultat_net'') = Inr ni
         \<and> (if fl_gt ni (Fin 0) then resultat_net k = ni
             else \<exists>rt ch im. get_column_sum U df dc (lit ''revenus'') = Inr rt
                     \<and> get_column_sum U df dc (lit ''charges'') = Inr ch
                     \<and> get_column_sum U df dc (lit ''impots'') = Inr im
                     \<and> resultat_net k = fl_sub (fl_sub rt ch) im)))
   \<and> (cells_convertible df \<longrightarrow> (\<exists>k'. calculate_kpis U df dc = Inr k'))"
proof (intro conjI impI)
  assume "calculate_kpis U df dc = Inr k"
  from calculate_kpis_InrD [OF this] obtain cf inv ni where
    "get_column_sum U df dc (lit ''revenus'') = Inr (revenus_totaux k)"
    "get_column_sum U df dc (lit ''cash_flow'') = Inr cf"
    "get_column_sum U df dc (lit ''investissements'') = Inr inv"
    "free_cash_flow k = (if fl_gt cf (Fin 0) then fl_sub cf inv else fl_sub (resultat_net k) inv)"
    "get_column_sum U df dc (lit ''resultat_net'') = Inr ni"
    "if fl_gt ni (Fin 0) then resultat_net k = ni
        else \<exists>ch im. get_column_sum U df dc (lit ''charges'') = Inr ch
                   \<and> get_column_sum U df dc (lit ''impots'') = Inr im
                   \<and> resultat_net k = fl_sub (fl_sub (revenus_totaux k) ch) im"
    by blast
  then show "\<exists>cf inv ni. get_column_sum U df dc (lit ''cash_flow'') = Inr cf
         \<and> get_column_sum U df dc (lit ''investissements'') = Inr inv
         \<and> free_cash_flow k =
             (if fl_gt cf (Fin 0) then fl_sub cf inv else fl_sub (resultat_net k) inv)
         \<and> get_column_sum U df dc (lit ''resultat_net'') = Inr ni
         \<and> (if fl_gt ni (Fin 0) then resultat_net k = ni
             else \<exists>rt ch im. get_column_sum U df dc (lit ''revenus'') = Inr rt
                     \<and> get_column_sum U df dc (lit ''charges'') = Inr ch
                     \<and> get_column_sum U df dc (lit ''impots'') = Inr im
                     \<and> resultat_net k = fl_sub (fl_sub rt ch) im)"
    by (intro exI [of _ cf] exI [of _ inv] exI [of _ ni]) (simp split: if_splits)
next
  assume "cells_convertible df"
  then show "\<exists>k'. calculate_kpis U df dc = Inr k'"
    by (rule calculate_kpis_convertible)
qed

theorem free_cash_flow_formula_witness:
  "cells_convertible sample_df
   \<and> get_column_sum ascii_db sample_df revenue_and_expenses (lit ''resultat_net'') = Inr (Fin 0)
   \<and> (\<exists>k. calculate_kpis ascii_db sample_df revenue_and_expenses = Inr k
        \<and> resultat_net k = Fin 243000
        \<and> free_cash_flow k = Fin 243000)"
  using free_cash_flow_formula [of ascii_db sample_df revenue_and_expenses
      "\<lparr>revenus_totaux = Fin 585000, ebitda = Fin 243000, resultat_net = Fin 243000,
        free_cash_flow = Fin 243000, marge_nette = Fin (243000 / 585000 * 100)\<rparr>"]
  by (simp add: partial_kpis sample_convertible) (simp add: partial_sums lit_def)

text \<open>
  Claim C7 says that no function raises on any input. \<open>clean_numeric_value\<close> raises
  \<open>OverflowError\<close> on the integer \<open>10^400\<close>: the conversion \<open>float(value)\<close> of a number
  stands outside the \<open>try\<close>. On the dataset whose column \<open>Revenus\<close> holds that one
  cell, the column is detected, its sum raises, and so does \<open>calculate_kpis\<close>.
\<close>

theorem int_overflow_raises:
  "clean_numeric_value U (PyInt (10 ^ 400)) = Inl OverflowError
   \<and> detect_columns U huge_df (lit ''revenus'') = Some (lit ''Revenus'')
   \<and> get_column_sum U huge_df (detect_columns U huge_df) (lit ''revenus'') = Inl OverflowError
   \<and> calculate_kpis U huge_df (detect_columns U huge_df) = Inl OverflowError"
proof (intro conjI)
  show "clean_numeric_value U (PyInt (10 ^ 400)) = Inl OverflowError"
    by (rule huge_cell)
  show d: "detect_columns U huge_df (lit ''revenus'') = Some (lit ''Revenus'')"
    by (simp add: detect_columns_def huge_df_def COLUMN_PATTERNS_def lit_def is_ascii_def
        ascii_lower_def replace_char_def py_lower_def normalize_header_def enumerate_eq_zip)
  have c: "lit ''Revenus'' \<in> set (columns huge_df)"
    and v: "series huge_df (lit ''Revenus'') = [PyInt (10 ^ 400)]"
    by (simp_all add: huge_df_def)
  show s: "get_column_sum U huge_df (detect_columns U huge_df) (lit ''revenus'') =
      Inl OverflowError"
    by (simp only: get_column_sum_def d option.case c if_True v sum_cleaned.simps huge_cell
        bind_error_simps)
  show "calculate_kpis U huge_df (detect_columns U huge_df) = Inl OverflowError"
    unfolding calculate_kpis_def Let_def s by (simp only: bind_error_simps)
qed

theorem int_overflow_raises_witness:
  "calculate_kpis ascii_db huge_df (detect_columns ascii_db huge_df) = Inl OverflowError"
  using int_overflow_raises [of ascii_db] by simp

text \<open>
  Claim C8. Appending a row in which every cell of every detected column cleans to 0
  changes neither the detected columns, which depend on the headers only, nor the
  outcome of \<open>calculate_kpis\<close>, all five indicators included, for every mapping.
\<close>

theorem zero_row_neutral:
  assumes "\<forall>c h. dc c = Some h \<and> h \<in> set (columns df)
             \<longrightarrow> clean_numeric_value U (row h) = Inr (Fin 0)"
  shows "detect_columns U (append_row df row) = detect_columns U df
       \<and> calculate_kpis U (append_row df row) dc = calculate_kpis U df dc"
proof
  show "detect_columns U (append_row df row) = detect_columns U df"
    by (simp add: detect_columns_def append_row_def)
  show "calculate_kpis U (append_row df row) dc = calculate_kpis U df dc"
    by (rule calculate_kpis_cong; rule get_column_sum_append_row) (use assms in blast)+
qed

theorem zero_row_neutral_witness:
  "detect_columns ascii_db (append_row sample_df zero_row) = detect_columns ascii_db sample_df
   \<and> calculate_kpis ascii_db (append_row sample_df zero_row) (detect_columns ascii_db sample_df) =
       Inr \<lparr>revenus_totaux = Fin 585000, ebitda = Fin 268000, resultat_net = Fin 151000,
            free_cash_flow = Fin 139000, marge_nette = Fin (151000 / 585000 * 100)\<rparr>"
  using zero_row_neutral [of "detect_columns ascii_db sample_df" sample_df ascii_db zero_row]
  by (simp add: zero_row_clean sample_kpis)

text \<open>
  Claim C9. When some header normalizes to the empty string, the result of
  \<open>detect_columns\<close> has all ten categories as its keys, and each category gets the first
  header that normalizes to the empty string or matches one of the category's patterns.
\<close>

theorem empty_header_matches_all:
  assumes "h \<in> set (columns df)" and "normalize_header U h = []"
  shows "dom (detect_columns U df) =
           set (map lit [''revenus'', ''charges'', ''ebitda'', ''resultat_operationnel'',
                         ''amortissements'', ''resultat_net'', ''impots'', ''cash_flow'',
                         ''investissements'', ''date''])
       \<and> (\<forall>(c, patterns) \<in> set COLUMN_PATTERNS.
            detect_columns U df c =
              find (\<lambda>x. normalize_header U x = []
                        \<or> list_ex (\<lambda>p. py_in p (normalize_header U x)
                                        \<or> py_in (normalize_header U x) p) patterns)
                   (columns df))"
proof
  let ?M = "\<lambda>patterns x. list_ex (\<lambda>p. py_in p (normalize_header U x)
                                        \<or> py_in (normalize_header U x) p) patterns"
  have nonempty: "patterns \<noteq> []" if "(c, patterns) \<in> set COLUMN_PATTERNS" for c patterns
    using that by (auto simp: COLUMN_PATTERNS_def)
  have empty_matches: "?M patterns x" if "normalize_header U x = []" "patterns \<noteq> []" for patterns x
    using that by (cases patterns) (simp_all add: py_in_Nil)
  have at_key: "detect_columns U df c = find (?M patterns) (columns df)"
    if "(c, patterns) \<in> set COLUMN_PATTERNS" for c patterns
    using that registry_distinct by (simp add: detect_columns_find)
  have found: "find (?M patterns) (columns df) \<noteq> None"
    if "(c, patterns) \<in> set COLUMN_PATTERNS" for c patterns
    using assms empty_matches [OF assms(2) nonempty [OF that]] by (auto simp: find_None_iff)
  have "dom (detect_columns U df) = fst ` set COLUMN_PATTERNS"
  proof (intro set_eqI iffI)
    fix c assume "c \<in> dom (detect_columns U df)"
    then have "map_of COLUMN_PATTERNS c \<noteq> None"
      by (auto simp: detect_columns_find split: option.splits)
    then show "c \<in> fst ` set COLUMN_PATTERNS"
      by (simp add: map_of_eq_None_iff)
  next
    fix c assume "c \<in> fst ` set COLUMN_PATTERNS"
    then obtain patterns where "(c, patterns) \<in> set COLUMN_PATTERNS" by auto
    then show "c \<in> dom (detect_columns U df)"
      using at_key found by (auto simp: dom_def)
  qed
  also have "fst ` set COLUMN_PATTERNS =
           set (map lit [''revenus'', ''charges'', ''ebitda'', ''resultat_operationnel'',
                         ''amortissements'', ''resultat_net'', ''impots'', ''cash_flow'',
                         ''investissements'', ''date''])"
    by (simp add: COLUMN_PATTERNS_def)
  finally show "dom (detect_columns U df) =
           set (map lit [''revenus'', ''charges'', ''ebitda'', ''resultat_operationnel'',
                         ''amortissements'', ''resultat_net'', ''impots'', ''cash_flow'',
                         ''investissements'', ''date''])" .
  show "\<forall>(c, patterns) \<in> set COLUMN_PATTERNS.
            detect_columns U df c =
              find (\<lambda>x. normalize_header U x = [] \<or> ?M patterns x) (columns df)"
  proof (clarify)
    fix c patterns assume in_reg: "(c, patterns) \<in> set COLUMN_PATTERNS"
    have "(\<lambda>x. normalize_header U x = [] \<or> ?M patterns x) = ?M patterns"
      using empty_matches [OF _ nonempty [OF in_reg]] by auto
    then show "detect_columns U df c =
              find (\<lambda>x. normalize_header U x = [] \<or> ?M patterns x) (columns df)"
      using at_key [OF in_reg] by simp
  qed
qed


theorem empty_header_matches_all_witness:
  "dom (detect_columns ascii_db \<lparr>columns = [lit ''Revenus'', []], series = (\<lambda>label. [])\<rparr>) =
     set (map lit [''revenus'', ''charges'', ''ebitda'', ''resultat_operationnel'',
                   ''amortissements'', ''resultat_net'', ''impots'', ''cash_flow'',
                   ''investissements'', ''date''])
   \<and> detect_columns ascii_db \<lparr>columns = [lit ''Revenus'', []], series = (\<lambda>label. [])\<rparr>
         (lit ''revenus'') = Some (lit ''Revenus'')
   \<and> detect_columns ascii_db \<lparr>columns = [lit ''Revenus'', []], series = (\<lambda>label. [])\<rparr>
         (lit ''date'') = Some []"
  using empty_header_matches_all
    [of "[]" "\<lparr>columns = [lit ''Revenus'', []], series = (\<lambda>label. [])\<rparr>" ascii_db]
  by (simp add: COLUMN_PATTERNS_def lit_def is_ascii_def ascii_lower_def replace_char_def
      py_lower_def normalize_header_def)

text \<open>
  Claim C10. A text with two commas or more cleans to 0: each comma becomes a point, and
  \<open>float\<close> rejects a text with two points. \<open>1,234,567\<close> is such a text.
\<close>

theorem two_commas_give_zero:
  assumes "2 \<le> count_list s 44"
  shows "clean_numeric_value U (Str s) = Inr (Fin 0)"
proof -
  have "2 \<le> count_list (replace_char 44 46 (re_sub_class U (py_strip U s))) 46"
    using assms count_cleaned [of s U] by simp
  then have "py_float U (replace_char 44 46 (re_sub_class U (py_strip U s))) = Inl ValueError"
    by (rule py_float_two_points)
  moreover have "s \<noteq> []" using assms by auto
  ultimately show ?thesis by (simp add: clean_numeric_value_def)
qed

theorem two_commas_give_zero_witness:
  "2 \<le> count_list (lit ''1,234,567'') 44
   \<and> clean_numeric_value ascii_db (Str (lit ''1,234,567'')) = Inr (Fin 0)"
  using two_commas_give_zero [of "lit ''1,234,567''" ascii_db] by (simp add: lit_def)

end
